theory Spec2Isabelle
  imports
    Main
    "HOL-Library.Sublist"
    "HOL-Library.Char_ord"
    "HOL-Library.List_Lexorder"
    "HOL-Library.Multiset"
begin

text \<open>
  A model of scallop, a scanner for saved container images: the archive extractor
  (\<^verbatim>\<open>internal/utils/file.go\<close>, \<^verbatim>\<open>internal/docker\<close>), the directory, size and security
  analyzers and the aggregator (\<^verbatim>\<open>internal/analyzer\<close>).

  Go strings are byte sequences: \<^typ>\<open>string\<close> (a list of \<^typ>\<open>char\<close>, one per byte).
  Go compares strings byte by byte; this is the lexicographic order on \<^typ>\<open>string\<close>
  (\<^verbatim>\<open>List_Lexorder\<close> over \<^verbatim>\<open>Char_ord\<close>).
\<close>

section \<open>Strings (package strings)\<close>

definition HasPrefix :: "string \<Rightarrow> string \<Rightarrow> bool" where
  "HasPrefix s p = prefix p s"

definition HasSuffix :: "string \<Rightarrow> string \<Rightarrow> bool" where
  "HasSuffix s p = suffix p s"

definition Contains :: "string \<Rightarrow> string \<Rightarrow> bool" where
  "Contains s sub = sublist sub s"

text \<open>
  \<^verbatim>\<open>strings.ToLower\<close> on ASCII: the bytes \<^verbatim>\<open>A\<close>..\<^verbatim>\<open>Z\<close> become \<^verbatim>\<open>a\<close>..\<^verbatim>\<open>z\<close>. Bytes
  of \<^verbatim>\<open>0x80\<close> and above are left as they are (Go maps them rune by rune through the
  Unicode tables, which are not modelled); no theorem below depends on what
  \<open>ToLower\<close> returns.
\<close>

definition lower_table :: "(char \<times> char) list" where
  "lower_table = zip ''ABCDEFGHIJKLMNOPQRSTUVWXYZ'' ''abcdefghijklmnopqrstuvwxyz''"

definition ToLower :: "string \<Rightarrow> string" where
  "ToLower s = map (\<lambda>c. case map_of lower_table c of None \<Rightarrow> c | Some l \<Rightarrow> l) s"

text \<open>\<^verbatim>\<open>strings.TrimSpace\<close>, for ASCII white space (tab, LF, VT, FF, CR, space).\<close>

definition is_space :: "char \<Rightarrow> bool" where
  "is_space c = (c \<in> set [CHR 0x09, CHR 0x0A, CHR 0x0B, CHR 0x0C, CHR 0x0D, CHR 0x20])"

definition TrimSpace :: "string \<Rightarrow> string" where
  "TrimSpace s = rev (dropWhile is_space (rev (dropWhile is_space s)))"

text \<open>
  \<^verbatim>\<open>strings.Split(s, sep)\<close> for a non-empty separator: the pieces between the
  occurrences of the separator \<open>d\<close>, found from the left and not overlapping. \<open>cur\<close> holds the
  bytes of the piece being read.
\<close>

fun split_acc :: "string \<Rightarrow> string \<Rightarrow> string \<Rightarrow> string list" where
  "split_acc d cur [] = [cur]"
| "split_acc d cur (c # cs) =
     (if prefix d (c # cs) then cur # split_acc d [] (drop (length d - 1) cs)
      else split_acc d (cur @ [c]) cs)"

definition Split :: "string \<Rightarrow> string \<Rightarrow> string list" where
  "Split s d = split_acc d [] s"

text \<open>\<^verbatim>\<open>%d\<close> of a non-negative integer.\<close>

definition digit :: "nat \<Rightarrow> char" where
  "digit d = ''0123456789'' ! d"

function itoa :: "nat \<Rightarrow> string" where
  "itoa n = (if n < 10 then [digit n] else itoa (n div 10) @ [digit (n mod 10)])"
  by pat_completeness auto
termination
  by (relation "measure id") auto

section \<open>Paths (package path/filepath, Unix)\<close>

definition sep :: char where
  "sep = CHR ''/''"

text \<open>The bytes after the last separator.\<close>

definition last_elem :: "string \<Rightarrow> string" where
  "last_elem path = rev (takeWhile (\<lambda>c. c \<noteq> sep) (rev path))"

text \<open>
  \<^verbatim>\<open>filepath.Ext\<close>: the suffix of the last element that starts at its last dot, empty
  when the last element has no dot.
\<close>

definition Ext :: "string \<Rightarrow> string" where
  "Ext path =
     (let e = last_elem path
      in if CHR ''.'' \<in> set e then CHR ''.'' # rev (takeWhile (\<lambda>c. c \<noteq> CHR ''.'') (rev e))
         else [])"

text \<open>\<^verbatim>\<open>filepath.Base\<close>: trailing separators are dropped, then the last element is taken.\<close>

definition Base :: "string \<Rightarrow> string" where
  "Base path =
     (if path = [] then ''.''
      else let p = rev (dropWhile (\<lambda>c. c = sep) (rev path))
           in if p = [] then [sep] else last_elem p)"

text \<open>
  \<^verbatim>\<open>filepath.Clean\<close>. The path is read element by element; \<open>out\<close> is the list of
  elements written so far. An empty element and \<^verbatim>\<open>.\<close> are dropped; \<^verbatim>\<open>..\<close> removes
  the last written element when there is one that is not itself \<^verbatim>\<open>..\<close>, is dropped
  at the root of a rooted path, and is written otherwise.
\<close>

fun elements_acc :: "string \<Rightarrow> string \<Rightarrow> string list" where
  "elements_acc cur [] = [cur]"
| "elements_acc cur (c # cs) =
     (if c = sep then cur # elements_acc [] cs else elements_acc (cur @ [c]) cs)"

definition elements :: "string \<Rightarrow> string list" where
  "elements path = elements_acc [] path"

fun clean_elems :: "bool \<Rightarrow> string list \<Rightarrow> string list \<Rightarrow> string list" where
  "clean_elems rooted out [] = out"
| "clean_elems rooted out (e # es) =
     (if e = [] \<or> e = ''.'' then clean_elems rooted out es
      else if e = ''..'' then
        (if out \<noteq> [] \<and> last out \<noteq> ''..'' then clean_elems rooted (butlast out) es
         else if \<not> rooted then clean_elems rooted (out @ [''..'']) es
         else clean_elems rooted out es)
      else clean_elems rooted (out @ [e]) es)"

fun join_elems :: "string list \<Rightarrow> string" where
  "join_elems [] = []"
| "join_elems [e] = e"
| "join_elems (e # es) = e @ [sep] @ join_elems es"

definition Clean :: "string \<Rightarrow> string" where
  "Clean path =
     (if path = [] then ''.''
      else let rooted = (hd path = sep);
               out = clean_elems rooted [] (elements path)
           in if rooted then sep # join_elems out
              else if out = [] then ''.'' else join_elems out)"

text \<open>\<^verbatim>\<open>filepath.Join\<close>: empty leading arguments are ignored, the rest is joined and cleaned.\<close>

definition Join :: "string list \<Rightarrow> string" where
  "Join elem =
     (let es = dropWhile (\<lambda>e. e = []) elem
      in if es = [] then [] else Clean (join_elems es))"

section \<open>The unpacked tree and filepath.Walk\<close>

text \<open>
  What opening and reading a file gives: its bytes, a failure of \<^verbatim>\<open>os.Open\<close>, or a file
  that opens and whose reads fail.
\<close>

datatype fcontent = Bytes string | OpenFails | ReadFails

text \<open>
  A node of the tree: a file (name, size reported by \<^verbatim>\<open>Lstat\<close>, content), a directory
  (name, size reported for the directory itself, children in the order
  \<^verbatim>\<open>readDirNames\<close> returns them, that is sorted by name), or an entry whose \<^verbatim>\<open>Lstat\<close>
  or whose directory listing fails.
\<close>

datatype fsnode =
    File string int fcontent
  | Dir string int "fsnode list"
  | Broken string

fun node_name :: "fsnode \<Rightarrow> string" where
  "node_name (File n sz c) = n"
| "node_name (Dir n sz cs) = n"
| "node_name (Broken n) = n"

text \<open>
  One call of the walk function: a file, a directory, or an error. The path is the list
  of names below the root (empty for the root itself).
\<close>

datatype visit =
    VFile "string list" int fcontent
  | VDir "string list"
  | VErr "string list"

fun walk :: "string list \<Rightarrow> fsnode \<Rightarrow> visit list" where
  "walk p (File n sz c) = [VFile p sz c]"
| "walk p (Broken n) = [VErr p]"
| "walk p (Dir n sz cs) = VDir p # concat (map (\<lambda>c. walk (p @ [node_name c]) c) cs)"

definition Walk :: "fsnode \<Rightarrow> visit list" where
  "Walk root = walk [] root"

text \<open>
  \<^verbatim>\<open>filepath.Rel(imagePath, path)\<close> for a path the walk reached below \<^verbatim>\<open>imagePath\<close>,
  and the path itself as far as \<open>Ext\<close> and \<open>Base\<close> read it (its last element).
\<close>

definition Rel :: "string list \<Rightarrow> string" where
  "Rel p = (if p = [] then ''.'' else join_elems p)"

definition full_path :: "string \<Rightarrow> string list \<Rightarrow> string" where
  "full_path imagePath p = (if p = [] then imagePath else imagePath @ [sep] @ join_elems p)"

datatype error =
    WalkError "string list"
  | ErrTooLong
  | ReadError
  | ParseError
  | StatError string

text \<open>
  The walk calls the function on every visit in order and stops at the first error the
  function returns; the state holds what the closure has written so far.
\<close>

fun walk_loop :: "('s \<Rightarrow> visit \<Rightarrow> 's \<times> error option) \<Rightarrow> visit list \<Rightarrow> 's \<Rightarrow> 's \<times> error option" where
  "walk_loop f [] s = (s, None)"
| "walk_loop f (v # vs) s =
     (case f s v of
        (s', Some e) \<Rightarrow> (s', Some e)
      | (s', None) \<Rightarrow> walk_loop f vs s')"

section \<open>Directory analyzer (directory.go)\<close>

text \<open>
  \<open>Files\<close> and \<open>Dirs\<close> are Go slices that may be nil: \<open>None\<close> is the nil slice.
  \<open>FileTypes\<close> is a Go map, kept as an association list with one pair for each key.
  The counters are Go \<^verbatim>\<open>int\<close>s that count visited entries; \<open>Size\<close> is an \<^verbatim>\<open>int64\<close> sum
  and wraps around.
\<close>

record DirectoryInfo =
  Path :: string
  Size :: int
  FileCount :: nat
  DirCount :: nat
  Files :: "string list option"
  FileTypes :: "(string \<times> nat) list"
  Dirs :: "string list option"

definition wrap64 :: "int \<Rightarrow> int" where
  "wrap64 x = (x + 2 ^ 63) mod 2 ^ 64 - 2 ^ 63"

definition append_opt :: "'a list option \<Rightarrow> 'a \<Rightarrow> 'a list option" where
  "append_opt xs x = (case xs of None \<Rightarrow> Some [x] | Some ys \<Rightarrow> Some (ys @ [x]))"

fun incr :: "string \<Rightarrow> (string \<times> nat) list \<Rightarrow> (string \<times> nat) list" where
  "incr k [] = [(k, 1)]"
| "incr k ((k', v) # m) = (if k = k' then (k', v + 1) # m else (k', v) # incr k m)"

definition ext_bucket :: "string \<Rightarrow> string" where
  "ext_bucket e = (if e = [] then ''[no extension]'' else e)"

fun analyze_visit :: "string \<Rightarrow> bool \<Rightarrow> DirectoryInfo \<Rightarrow> visit \<Rightarrow> DirectoryInfo \<times> error option" where
  "analyze_visit imagePath verbose info (VErr p) = (info, Some (WalkError p))"
| "analyze_visit imagePath verbose info (VDir p) =
     (if p = [] then (info, None)
      else (info\<lparr>DirCount := DirCount info + 1,
                 Dirs := (if verbose then append_opt (Dirs info) (Rel p) else Dirs info)\<rparr>, None))"
| "analyze_visit imagePath verbose info (VFile p sz c) =
     (if p = [] then (info, None)
      else (info\<lparr>FileCount := FileCount info + 1,
                 Size := wrap64 (Size info + sz),
                 FileTypes := incr (ext_bucket (ToLower (Ext (full_path imagePath p)))) (FileTypes info),
                 Files := (if verbose then append_opt (Files info) (Rel p) else Files info)\<rparr>, None))"

definition sort_Strings :: "string list option \<Rightarrow> string list option" where
  "sort_Strings xs = map_option sort xs"

definition AnalyzeDirectory :: "string \<Rightarrow> fsnode \<Rightarrow> bool \<Rightarrow> DirectoryInfo \<times> error option" where
  "AnalyzeDirectory imagePath root verbose =
     (let (info, err) =
            walk_loop (analyze_visit imagePath verbose) (Walk root)
              \<lparr>Path = imagePath, Size = 0, FileCount = 0, DirCount = 0, Files = None,
               FileTypes = [], Dirs = None\<rparr>
      in ((if verbose then info\<lparr>Files := sort_Strings (Files info), Dirs := sort_Strings (Dirs info)\<rparr>
           else info), err))"

section \<open>What a walk visited\<close>

text \<open>
  The visits the walk function handled before the walk stopped: those up to the first
  error. The entries below the root are the visits whose path is not empty.
\<close>

fun is_err :: "visit \<Rightarrow> bool" where
  "is_err (VErr p) = True"
| "is_err v = False"

fun vpath :: "visit \<Rightarrow> string list" where
  "vpath (VFile p sz c) = p"
| "vpath (VDir p) = p"
| "vpath (VErr p) = p"

fun is_file :: "visit \<Rightarrow> bool" where
  "is_file (VFile p sz c) = True"
| "is_file v = False"

fun is_dir :: "visit \<Rightarrow> bool" where
  "is_dir (VDir p) = True"
| "is_dir v = False"

definition visited :: "visit list \<Rightarrow> visit list" where
  "visited vs = takeWhile (\<lambda>v. \<not> is_err v) vs"

definition non_root :: "visit list \<Rightarrow> visit list" where
  "non_root vs = filter (\<lambda>v. vpath v \<noteq> []) vs"

text \<open>A Go slice as a list: the nil slice has no elements.\<close>

definition slice :: "'a list option \<Rightarrow> 'a list" where
  "slice xs = (case xs of None \<Rightarrow> [] | Some ys \<Rightarrow> ys)"

text \<open>The number of entries of the tree below its root.\<close>

fun entries :: "fsnode \<Rightarrow> nat" where
  "entries (File n sz c) = 0"
| "entries (Broken n) = 0"
| "entries (Dir n sz cs) = sum_list (map (\<lambda>c. Suc (entries c)) cs)"

text \<open>The relative paths of the files and of the directories among some visits, in order.\<close>

fun file_paths :: "visit list \<Rightarrow> string list" where
  "file_paths [] = []"
| "file_paths (VFile p sz c # vs) = Rel p # file_paths vs"
| "file_paths (v # vs) = file_paths vs"

fun dir_paths :: "visit list \<Rightarrow> string list" where
  "dir_paths [] = []"
| "dir_paths (VDir p # vs) = Rel p # dir_paths vs"
| "dir_paths (v # vs) = dir_paths vs"

section \<open>Lines and regular expressions (bufio.Scanner, regexp)\<close>

text \<open>
  \<^verbatim>\<open>bufio.Scanner\<close> with \<^verbatim>\<open>ScanLines\<close>: the lines of the data, each without its
  \<^verbatim>\<open>\n\<close> and without one trailing \<^verbatim>\<open>\r\<close>; a last line without \<^verbatim>\<open>\n\<close> counts when it is
  not empty. A line of \<^verbatim>\<open>MaxScanTokenSize\<close> (65536) bytes or more does not fit the buffer:
  the scan stops there with \<^verbatim>\<open>ErrTooLong\<close>. The result is the lines scanned and whether
  the scan stopped so. \<open>cur\<close> holds the bytes of the line being read.
\<close>

definition dropCR :: "string \<Rightarrow> string" where
  "dropCR l = (if l \<noteq> [] \<and> last l = CHR 0x0D then butlast l else l)"

fun scan_acc :: "string \<Rightarrow> string \<Rightarrow> string list \<times> bool" where
  "scan_acc cur [] = (if cur = [] then ([], False)
                      else if 65536 \<le> length cur then ([], True)
                      else ([dropCR cur], False))"
| "scan_acc cur (c # cs) =
     (if 65536 \<le> length cur then ([], True)
      else if c = CHR 0x0A then (let (ls, e) = scan_acc [] cs in (dropCR cur # ls, e))
      else scan_acc (cur @ [c]) cs)"

definition ScanLines :: "string \<Rightarrow> string list \<times> bool" where
  "ScanLines d = scan_acc [] d"

text \<open>
  The regexp package matches runes, not bytes. \<open>decode_rune\<close> is \<^verbatim>\<open>utf8.DecodeRune\<close>
  on a non-empty byte sequence: the rune and its width, \<^verbatim>\<open>U+FFFD\<close> with width 1 for a
  byte that starts no valid encoding.
\<close>

definition cont :: "nat \<Rightarrow> bool" where
  "cont b = (0x80 \<le> b \<and> b \<le> 0xBF)"

fun decode_rune :: "nat list \<Rightarrow> nat \<times> nat" where
  "decode_rune [] = (0xFFFD, 1)"
| "decode_rune (b0 # bs) =
     (if b0 < 0x80 then (b0, 1)
      else if 0xC2 \<le> b0 \<and> b0 \<le> 0xDF then
        (case bs of
           b1 # r \<Rightarrow> if cont b1 then ((b0 - 0xC0) * 64 + (b1 - 0x80), 2) else (0xFFFD, 1)
         | _ \<Rightarrow> (0xFFFD, 1))
      else if 0xE0 \<le> b0 \<and> b0 \<le> 0xEF then
        (case bs of
           b1 # b2 # r \<Rightarrow>
             if (if b0 = 0xE0 then 0xA0 \<le> b1 \<and> b1 \<le> 0xBF
                 else if b0 = 0xED then 0x80 \<le> b1 \<and> b1 \<le> 0x9F
                 else cont b1) \<and> cont b2
             then ((b0 - 0xE0) * 4096 + (b1 - 0x80) * 64 + (b2 - 0x80), 3)
             else (0xFFFD, 1)
         | _ \<Rightarrow> (0xFFFD, 1))
      else if 0xF0 \<le> b0 \<and> b0 \<le> 0xF4 then
        (case bs of
           b1 # b2 # b3 # r \<Rightarrow>
             if (if b0 = 0xF0 then 0x90 \<le> b1 \<and> b1 \<le> 0xBF
                 else if b0 = 0xF4 then 0x80 \<le> b1 \<and> b1 \<le> 0x8F
                 else cont b1) \<and> cont b2 \<and> cont b3
             then ((b0 - 0xF0) * 262144 + (b1 - 0x80) * 4096 + (b2 - 0x80) * 64 + (b3 - 0x80), 4)
             else (0xFFFD, 1)
         | _ \<Rightarrow> (0xFFFD, 1))
      else (0xFFFD, 1))"

function decode :: "nat list \<Rightarrow> nat list" where
  "decode [] = []"
| "decode (b # bs) = fst (decode_rune (b # bs)) # decode (drop (snd (decode_rune (b # bs)) - 1) bs)"
  by pat_completeness auto
termination
  by (relation "measure length") (simp_all del: decode_rune.simps)

definition runes :: "string \<Rightarrow> nat list" where
  "runes s = decode (map of_char s)"

text \<open>
  The regular expressions of the secret table are sequences of single-rune items: a
  class, an optional class (\<^verbatim>\<open>?\<close>), a repeated class (\<^verbatim>\<open>*\<close>) and a class repeated at
  least \<open>n\<close> times (\<^verbatim>\<open>{n,}\<close>). \<open>match_here\<close> says whether the sequence matches a
  prefix of the runes, \<open>match_anywhere\<close> whether it matches at some position, which
  is \<^verbatim>\<open>MatchString\<close>.
\<close>

datatype rx = Cls "nat \<Rightarrow> bool" | Opt "nat \<Rightarrow> bool" | Star "nat \<Rightarrow> bool" | AtLeast nat "nat \<Rightarrow> bool"

fun match_here :: "rx list \<Rightarrow> nat list \<Rightarrow> bool" where
  "match_here [] s = True"
| "match_here (Cls P # rs) [] = False"
| "match_here (Cls P # rs) (c # cs) = (P c \<and> match_here rs cs)"
| "match_here (Opt P # rs) [] = match_here rs []"
| "match_here (Opt P # rs) (c # cs) = ((P c \<and> match_here rs cs) \<or> match_here rs (c # cs))"
| "match_here (Star P # rs) [] = match_here rs []"
| "match_here (Star P # rs) (c # cs) =
     (match_here rs (c # cs) \<or> (P c \<and> match_here (Star P # rs) cs))"
| "match_here (AtLeast n P # rs) [] = (n = 0 \<and> match_here rs [])"
| "match_here (AtLeast n P # rs) (c # cs) =
     ((n = 0 \<and> match_here rs (c # cs)) \<or> (P c \<and> match_here (AtLeast (n - 1) P # rs) cs))"

fun match_anywhere :: "rx list \<Rightarrow> nat list \<Rightarrow> bool" where
  "match_anywhere rs [] = match_here rs []"
| "match_anywhere rs (c # cs) = (match_here rs (c # cs) \<or> match_anywhere rs cs)"

definition MatchString :: "rx list \<Rightarrow> string \<Rightarrow> bool" where
  "MatchString re s = match_anywhere re (runes s)"

text \<open>
  A lower-case ASCII letter under \<^verbatim>\<open>(?i)\<close>: the letter, its upper case, and the runes
  that fold to it (\<^verbatim>\<open>U+212A\<close> for \<^verbatim>\<open>k\<close>, \<^verbatim>\<open>U+017F\<close> for \<^verbatim>\<open>s\<close>).
\<close>

definition fold_class :: "char \<Rightarrow> nat \<Rightarrow> bool" where
  "fold_class c r =
     (r = of_char c \<or> r + 32 = of_char c
      \<or> (c = CHR ''k'' \<and> r = 0x212A) \<or> (c = CHR ''s'' \<and> r = 0x17F))"

definition lit :: "string \<Rightarrow> rx list" where
  "lit s = map (\<lambda>c. Cls (fold_class c)) s"

definition ws :: "nat \<Rightarrow> bool" where
  "ws r = (r \<in> set [0x09, 0x0A, 0x0C, 0x0D, 0x20])"

definition quote :: "nat \<Rightarrow> bool" where
  "quote r = (r = 0x27 \<or> r = 0x22)"

definition sepc :: "nat \<Rightarrow> bool" where
  "sepc r = (r = 0x5F \<or> r = 0x2D)"

text \<open>\<^verbatim>\<open>\s*=\s*['"]([^'"]{n,})['"]\<close>\<close>

definition assigned :: "nat \<Rightarrow> rx list" where
  "assigned n = [Star ws, Cls (\<lambda>r. r = 0x3D), Star ws, Cls quote,
                 AtLeast n (\<lambda>r. \<not> quote r), Cls quote]"

section \<open>Properties\<close>

subsection \<open>Directory analyzer: counts\<close>

lemma sum_incr: "sum_list (map snd (incr k m)) = Suc (sum_list (map snd m))"
  by (induction k m rule: incr.induct) auto

lemma loop_counts:
  "walk_loop (analyze_visit ip vb) vs info = (info', err) \<Longrightarrow>
   FileCount info' + DirCount info' = FileCount info + DirCount info + length (non_root (visited vs))"
proof (induction vs arbitrary: info)
  case Nil
  then show ?case by (simp add: visited_def non_root_def)
next
  case (Cons v vs)
  show ?case
  proof (cases v)
    case (VErr p)
    with Cons.prems show ?thesis by (simp add: visited_def non_root_def)
  next
    case (VDir p)
    with Cons.prems Cons.IH show ?thesis
      by (cases "p = []") (fastforce simp: visited_def non_root_def)+
  next
    case (VFile p sz c)
    with Cons.prems Cons.IH show ?thesis
      by (cases "p = []") (fastforce simp: visited_def non_root_def)+
  qed
qed

lemma loop_hist:
  "walk_loop (analyze_visit ip vb) vs info = (info', err) \<Longrightarrow>
   sum_list (map snd (FileTypes info)) = FileCount info \<Longrightarrow>
   sum_list (map snd (FileTypes info')) = FileCount info'"
proof (induction vs arbitrary: info)
  case Nil
  then show ?case by simp
next
  case (Cons v vs)
  show ?case
  proof (cases v)
    case (VErr p)
    with Cons.prems show ?thesis by simp
  next
    case (VDir p)
    with Cons.prems Cons.IH show ?thesis
      by (cases "p = []") (fastforce)+
  next
    case (VFile p sz c)
    with Cons.prems Cons.IH show ?thesis
      by (cases "p = []") (fastforce simp: sum_incr)+
  qed
qed

lemma loop_err:
  "walk_loop (analyze_visit ip vb) vs info = (info', err) \<Longrightarrow>
   (err = None) = (visited vs = vs)"
proof (induction vs arbitrary: info)
  case Nil
  then show ?case by (simp add: visited_def)
next
  case (Cons v vs)
  show ?case
  proof (cases v)
    case (VErr p)
    with Cons.prems show ?thesis by (auto simp: visited_def)
  next
    case (VDir p)
    with Cons.prems Cons.IH show ?thesis
      by (cases "p = []") (fastforce simp: visited_def)+
  next
    case (VFile p sz c)
    with Cons.prems Cons.IH show ?thesis
      by (cases "p = []") (fastforce simp: visited_def)+
  qed
qed

lemma length_walk: "length (walk p n) = Suc (entries n)"
proof (induction n arbitrary: p)
  case (Dir n sz cs)
  have "length (concat (map (\<lambda>c. walk (p @ [node_name c]) c) cs)) = sum_list (map (\<lambda>c. Suc (entries c)) cs)"
    using Dir.IH by (induction cs) (auto simp: length_concat)
  then show ?case by simp
qed simp_all

lemma vpath_walk: "v \<in> set (walk p n) \<Longrightarrow> prefix p (vpath v)"
proof (induction n arbitrary: p v)
  case (Dir n sz cs)
  from Dir.prems have "v = VDir p \<or> (\<exists>c \<in> set cs. v \<in> set (walk (p @ [node_name c]) c))" by auto
  then show ?case
  proof
    assume "v = VDir p" then show ?thesis by simp
  next
    assume "\<exists>c \<in> set cs. v \<in> set (walk (p @ [node_name c]) c)"
    then obtain c where c: "c \<in> set cs" "v \<in> set (walk (p @ [node_name c]) c)" by blast
    from Dir.IH[OF c] have "prefix (p @ [node_name c]) (vpath v)" .
    then show ?thesis by (meson append_prefixD)
  qed
qed auto

lemma non_root_Walk: "length (non_root (Walk root)) = entries root"
proof (cases root)
  case (Dir n sz cs)
  have "\<forall>v \<in> set (concat (map (\<lambda>c. walk ([] @ [node_name c]) c) cs)). vpath v \<noteq> []"
  proof
    fix v assume "v \<in> set (concat (map (\<lambda>c. walk ([] @ [node_name c]) c) cs))"
    then obtain c where "c \<in> set cs" "v \<in> set (walk ([] @ [node_name c]) c)" by auto
    then have "prefix [node_name c] (vpath v)" using vpath_walk by fastforce
    then show "vpath v \<noteq> []" by auto
  qed
  then have "filter (\<lambda>v. vpath v \<noteq> []) (concat (map (\<lambda>c. walk ([] @ [node_name c]) c) cs)) = concat (map (\<lambda>c. walk ([] @ [node_name c]) c) cs)"
    by (simp add: filter_id_conv)
  moreover have "length (walk [] root) = Suc (entries root)" by (rule length_walk)
  ultimately show ?thesis using Dir by (simp add: Walk_def non_root_def)
qed (simp_all add: Walk_def non_root_def)

text \<open>
  C4. For every tree, the report of the directory analysis has
  \<open>FileCount + DirCount\<close> equal to the number of entries below the root that were
  visited, and the counts of the \<open>FileTypes\<close> histogram add up to \<open>FileCount\<close>. When
  the analysis returns no error, the visited entries are all entries of the tree below
  its root.
\<close>

theorem AnalyzeDirectory_counts:
  "FileCount (fst (AnalyzeDirectory imagePath root verbose)) + DirCount (fst (AnalyzeDirectory imagePath root verbose))
     = length (non_root (visited (Walk root)))
   \<and> sum_list (map snd (FileTypes (fst (AnalyzeDirectory imagePath root verbose))))
     = FileCount (fst (AnalyzeDirectory imagePath root verbose))
   \<and> (snd (AnalyzeDirectory imagePath root verbose) = None \<longrightarrow>
      FileCount (fst (AnalyzeDirectory imagePath root verbose)) + DirCount (fst (AnalyzeDirectory imagePath root verbose))
        = entries root)"
proof -
  define init where "init = \<lparr>Path = imagePath, Size = 0, FileCount = 0, DirCount = 0, Files = None,
               FileTypes = [], Dirs = None\<rparr>"
  obtain info err where w: "walk_loop (analyze_visit imagePath verbose) (Walk root) init = (info, err)"
    by (cases "walk_loop (analyze_visit imagePath verbose) (Walk root) init") auto
  have r: "FileCount (fst (AnalyzeDirectory imagePath root verbose)) = FileCount info"
      "DirCount (fst (AnalyzeDirectory imagePath root verbose)) = DirCount info"
      "FileTypes (fst (AnalyzeDirectory imagePath root verbose)) = FileTypes info"
      "snd (AnalyzeDirectory imagePath root verbose) = err"
    using w by (simp_all add: AnalyzeDirectory_def init_def)
  have c: "FileCount info + DirCount info = length (non_root (visited (Walk root)))"
    using loop_counts[OF w] by (simp add: init_def)
  have h: "sum_list (map snd (FileTypes info)) = FileCount info"
    using loop_hist[OF w] by (simp add: init_def)
  have e: "err = None \<longrightarrow> visited (Walk root) = Walk root"
    using loop_err[OF w] by simp
  show ?thesis using c h e non_root_Walk[of root] by (simp add: r)
qed

theorem AnalyzeDirectory_counts_witness:
  "snd (AnalyzeDirectory ''/img''
          (Dir ''img'' 0 [File ''a.txt'' 1 (Bytes ''x''), Dir ''d'' 0 [File ''b'' 2 (Bytes ''xy'')]])
          False) = None
   \<and> FileCount (fst (AnalyzeDirectory ''/img''
          (Dir ''img'' 0 [File ''a.txt'' 1 (Bytes ''x''), Dir ''d'' 0 [File ''b'' 2 (Bytes ''xy'')]])
          False))
     + DirCount (fst (AnalyzeDirectory ''/img''
          (Dir ''img'' 0 [File ''a.txt'' 1 (Bytes ''x''), Dir ''d'' 0 [File ''b'' 2 (Bytes ''xy'')]])
          False)) = 3"
proof -
  let ?t = "Dir ''img'' 0 [File ''a.txt'' 1 (Bytes ''x''), Dir ''d'' 0 [File ''b'' 2 (Bytes ''xy'')]]"
  have ok: "snd (AnalyzeDirectory ''/img'' ?t False) = None"
    by (simp add: AnalyzeDirectory_def Walk_def)
  have "FileCount (fst (AnalyzeDirectory ''/img'' ?t False))
        + DirCount (fst (AnalyzeDirectory ''/img'' ?t False)) = entries ?t"
    using AnalyzeDirectory_counts [of "''/img''" ?t False] ok by blast
  then show ?thesis using ok by simp
qed

subsection \<open>Directory analyzer: the path lists\<close>

lemma slice_append_opt: "slice (append_opt xs x) = slice xs @ [x]"
  by (cases xs) (simp_all add: slice_def append_opt_def)

lemma loop_verbose:
  "walk_loop (analyze_visit ip True) vs info = (info', err) \<Longrightarrow>
   slice (Files info') = slice (Files info) @ file_paths (non_root (visited vs))
   \<and> slice (Dirs info') = slice (Dirs info) @ dir_paths (non_root (visited vs))"
proof (induction vs arbitrary: info)
  case Nil
  then show ?case by (simp add: visited_def non_root_def)
next
  case (Cons v vs)
  show ?case
  proof (cases v)
    case (VErr p)
    with Cons.prems show ?thesis by (simp add: visited_def non_root_def)
  next
    case (VDir p)
    show ?thesis
    proof (cases "p = []")
      case True
      with VDir Cons.prems Cons.IH[of info] show ?thesis
        by (simp add: visited_def non_root_def)
    next
      case False
      let ?i = "info\<lparr>DirCount := DirCount info + 1, Dirs := append_opt (Dirs info) (Rel p)\<rparr>"
      from False VDir Cons.prems have "walk_loop (analyze_visit ip True) vs ?i = (info', err)" by simp
      from Cons.IH[OF this] False VDir show ?thesis
        by (simp add: visited_def non_root_def slice_append_opt)
    qed
  next
    case (VFile p sz c)
    show ?thesis
    proof (cases "p = []")
      case True
      with VFile Cons.prems Cons.IH[of info] show ?thesis
        by (simp add: visited_def non_root_def)
    next
      case False
      let ?i = "info\<lparr>FileCount := FileCount info + 1,
                 Size := wrap64 (Size info + sz),
                 FileTypes := incr (ext_bucket (ToLower (Ext (full_path ip p)))) (FileTypes info),
                 Files := append_opt (Files info) (Rel p)\<rparr>"
      from False VFile Cons.prems have "walk_loop (analyze_visit ip True) vs ?i = (info', err)" by simp
      from Cons.IH[OF this] False VFile show ?thesis
        by (simp add: visited_def non_root_def slice_append_opt)
    qed
  qed
qed

lemma loop_quiet:
  "walk_loop (analyze_visit ip False) vs info = (info', err) \<Longrightarrow>
   Files info' = Files info \<and> Dirs info' = Dirs info"
proof (induction vs arbitrary: info)
  case Nil
  then show ?case by simp
next
  case (Cons v vs)
  show ?case
  proof (cases v)
    case (VErr p)
    with Cons.prems show ?thesis by simp
  next
    case (VDir p)
    with Cons.prems Cons.IH show ?thesis
      by (cases "p = []") fastforce+
  next
    case (VFile p sz c)
    with Cons.prems Cons.IH show ?thesis
      by (cases "p = []") fastforce+
  qed
qed

lemma slice_sort_Strings: "slice (sort_Strings xs) = sort (slice xs)"
  by (cases xs) (simp_all add: slice_def sort_Strings_def)

text \<open>
  C7. With the verbosity flag set, \<open>Files\<close> and \<open>Dirs\<close> hold the relative path of
  every visited file and of every visited directory below the root, each list sorted
  ascending in the byte order of strings. With the flag not set both are the nil slice.
\<close>

theorem AnalyzeDirectory_lists:
  "(verbose \<longrightarrow>
      slice (Files (fst (AnalyzeDirectory imagePath root verbose)))
        = sort (file_paths (non_root (visited (Walk root))))
    \<and> slice (Dirs (fst (AnalyzeDirectory imagePath root verbose)))
        = sort (dir_paths (non_root (visited (Walk root))))
    \<and> sorted (slice (Files (fst (AnalyzeDirectory imagePath root verbose))))
    \<and> sorted (slice (Dirs (fst (AnalyzeDirectory imagePath root verbose)))))
   \<and> (\<not> verbose \<longrightarrow>
      Files (fst (AnalyzeDirectory imagePath root verbose)) = None
    \<and> Dirs (fst (AnalyzeDirectory imagePath root verbose)) = None)"
proof -
  define init where "init = \<lparr>Path = imagePath, Size = 0, FileCount = 0, DirCount = 0, Files = None,
               FileTypes = [], Dirs = (None :: string list option)\<rparr>"
  obtain info err where w: "walk_loop (analyze_visit imagePath verbose) (Walk root) init = (info, err)"
    by (cases "walk_loop (analyze_visit imagePath verbose) (Walk root) init") auto
  show ?thesis
  proof (cases verbose)
    case True
    have r: "Files (fst (AnalyzeDirectory imagePath root verbose)) = sort_Strings (Files info)"
        "Dirs (fst (AnalyzeDirectory imagePath root verbose)) = sort_Strings (Dirs info)"
      using w True by (simp_all add: AnalyzeDirectory_def init_def)
    from w True have "walk_loop (analyze_visit imagePath True) (Walk root) init = (info, err)" by simp
    from loop_verbose[OF this]
    have l: "slice (Files info) = file_paths (non_root (visited (Walk root)))"
         "slice (Dirs info) = dir_paths (non_root (visited (Walk root)))"
      by (simp_all add: init_def slice_def)
    have f: "slice (Files (fst (AnalyzeDirectory imagePath root verbose)))
               = sort (file_paths (non_root (visited (Walk root))))"
      by (simp only: r slice_sort_Strings l)
    have d: "slice (Dirs (fst (AnalyzeDirectory imagePath root verbose)))
               = sort (dir_paths (non_root (visited (Walk root))))"
      by (simp only: r slice_sort_Strings l)
    show ?thesis using True f d by simp
  next
    case False
    have r: "Files (fst (AnalyzeDirectory imagePath root verbose)) = Files info"
        "Dirs (fst (AnalyzeDirectory imagePath root verbose)) = Dirs info"
      using w False by (simp_all add: AnalyzeDirectory_def init_def)
    from w False have "walk_loop (analyze_visit imagePath False) (Walk root) init = (info, err)" by simp
    from loop_quiet[OF this] have n: "Files info = None" "Dirs info = None" by (simp_all add: init_def)
    show ?thesis using False r n by simp
  qed
qed

theorem AnalyzeDirectory_lists_witness:
  "slice (Files (fst (AnalyzeDirectory ''/img''
      (Dir ''img'' 0 [Dir ''a'' 0 [File ''z'' 1 (Bytes ''x'')], File ''a.txt'' 2 (Bytes ''xy'')]) True)))
     = [''a.txt'', ''a/z'']
   \<and> slice (Dirs (fst (AnalyzeDirectory ''/img''
      (Dir ''img'' 0 [Dir ''a'' 0 [File ''z'' 1 (Bytes ''x'')], File ''a.txt'' 2 (Bytes ''xy'')]) True)))
     = [''a'']
   \<and> Files (fst (AnalyzeDirectory ''/img''
      (Dir ''img'' 0 [Dir ''a'' 0 [File ''z'' 1 (Bytes ''x'')], File ''a.txt'' 2 (Bytes ''xy'')]) False))
     = None"
proof -
  let ?t = "Dir ''img'' 0 [Dir ''a'' 0 [File ''z'' 1 (Bytes ''x'')], File ''a.txt'' 2 (Bytes ''xy'')]"
  have f: "file_paths (non_root (visited (Walk ?t))) = [''a/z'', ''a.txt'']"
    by (simp add: Walk_def visited_def non_root_def Rel_def sep_def)
  have d: "dir_paths (non_root (visited (Walk ?t))) = [''a'']"
    by (simp add: Walk_def visited_def non_root_def Rel_def sep_def)
  have s: "sort [''a/z'', ''a.txt''] = [''a.txt'', ''a/z'']" by simp
  have v: "slice (Files (fst (AnalyzeDirectory ''/img'' ?t True)))
             = sort (file_paths (non_root (visited (Walk ?t))))
           \<and> slice (Dirs (fst (AnalyzeDirectory ''/img'' ?t True)))
             = sort (dir_paths (non_root (visited (Walk ?t))))"
    using AnalyzeDirectory_lists [of True "''/img''" ?t] by blast
  have q: "Files (fst (AnalyzeDirectory ''/img'' ?t False)) = None"
    using AnalyzeDirectory_lists [of False "''/img''" ?t] by blast
  show ?thesis using v q by (simp only: f d s) simp
qed

end
